theory Spec2Isabelle
  imports Main "HOL-Library.Word" "HOL-Library.Sublist"
begin

section \<open>Peripheral vocabulary of main.c\<close>

text \<open>
  main.c drives the chip only through calls of the vendor peripheral library and of the
  board's accelerometer and utility modules. Each such call is an event; a function of
  main.c is the sequence of events it issues, and the program is a machine whose steps
  append events to a trace.
\<close>

datatype cmu_clock = cmuClock_GPIO | cmuClock_HFLE | cmuClock_LFA | cmuClock_RTC | cmuClock_CORE

datatype cmu_osc = cmuOsc_LFXO

datatype cmu_select = cmuSelect_LFXO

datatype gpio_port = gpioPortA | gpioPortB | gpioPortC | gpioPortD | gpioPortE | gpioPortF

datatype gpio_mode = gpioModeDisabled | gpioModeInput | gpioModeInputPull
  | gpioModeInputPullFilter | gpioModePushPull

datatype irqn = GPIO_EVEN_IRQn | GPIO_ODD_IRQn | RTC_IRQn

datatype rtc_int = RTC_IEN_COMP0

datatype usart = USART1

text \<open>The registers of the sensor that main.c names.\<close>

datatype adxl_reg = ADXL_REG_STATUS | ADXL_REG_ACT_INACT_CTL | ADXL_REG_POWER_CTL

type_synonym gpio_pin = "gpio_port \<times> nat"

text \<open>
  pin_mapping.h is not among the sources; the port and pin of each signal are the ones
  listed in the Pinout section of the header comment of main.c
  (PC09: PB0, PC10: PB1, PD07: INT1).
\<close>

definition PB0 :: gpio_pin where
  "PB0 = (gpioPortC, 9)"

definition PB1 :: gpio_pin where
  "PB1 = (gpioPortC, 10)"

definition ADXL_INT1 :: gpio_pin where
  "ADXL_INT1 = (gpioPortD, 7)"

subsection \<open>The double constant of the compare value\<close>

text \<open>
  A finite double is a mantissa and a binary exponent, standing for
  \<open>mant * 2 ^ expo\<close>, with a mantissa of at most 53 bits. An arithmetic result is
  rounded to the nearest such value, ties to even. The exponent range is not
  modelled (no overflow to infinity, no subnormals).
\<close>

datatype dbl = Dbl (mant: int) (expo: int)

fun width :: "nat \<Rightarrow> nat" where
  "width n = (if n = 0 then 0 else Suc (width (n div 2)))"

declare width.simps [simp del]

definition round_dbl :: "int \<Rightarrow> int \<Rightarrow> dbl" where
  "round_dbl m e =
     (let k = width (nat \<bar>m\<bar>) in
      if k \<le> 53 then Dbl m e
      else
        let sh = k - 53;
            q = \<bar>m\<bar> div 2 ^ sh;
            r = \<bar>m\<bar> mod 2 ^ sh;
            half = 2 ^ (sh - 1);
            q' = (if half < r \<or> (r = half \<and> odd q) then q + 1 else q)
        in Dbl (sgn m * q') (e + int sh))"

definition dbl_of_int :: "int \<Rightarrow> dbl" where
  "dbl_of_int n = round_dbl n 0"

definition dbl_mul :: "dbl \<Rightarrow> dbl \<Rightarrow> dbl" where
  "dbl_mul a b = round_dbl (mant a * mant b) (expo a + expo b)"

text \<open>The value of a double as a fraction: numerator and power-of-two denominator.\<close>

definition dbl_num :: "dbl \<Rightarrow> int" where
  "dbl_num d = (if 0 \<le> expo d then mant d * 2 ^ nat (expo d) else mant d)"

definition dbl_den :: "dbl \<Rightarrow> int" where
  "dbl_den d = (if 0 \<le> expo d then 1 else 2 ^ nat (- expo d))"

text \<open>
  C's conversion of a double to \<open>uint32_t\<close>: the fraction is discarded (truncation
  towards zero); a truncated value outside the range of the type is undefined
  behaviour, here \<open>None\<close>.
\<close>

definition uint32_of_dbl :: "dbl \<Rightarrow> 32 word option" where
  "uint32_of_dbl d =
     (let v = sgn (dbl_num d) * (\<bar>dbl_num d\<bar> div dbl_den d) in
      if 0 \<le> v \<and> v < 2 ^ 32 then Some (word_of_int v) else None)"

text \<open>\<open>#define DELAY_RTC 60.0\<close>, \<open>#define LFXOFREQ 32768\<close>,
  \<open>#define COMPARE_RTC (DELAY_RTC * LFXOFREQ)\<close>: the int operand is converted to
  double, then the doubles are multiplied.\<close>

definition DELAY_RTC :: dbl where
  "DELAY_RTC = Dbl 60 0"

definition LFXOFREQ :: int where
  "LFXOFREQ = 32768"

definition COMPARE_RTC :: dbl where
  "COMPARE_RTC = dbl_mul DELAY_RTC (dbl_of_int LFXOFREQ)"

subsection \<open>Events\<close>

datatype event =
    CHIP_Init
  | CMU_ClockFreqGet cmu_clock
  | SysTick_Config nat
  | CMU_OscillatorEnable cmu_osc bool bool
  | CMU_ClockEnable cmu_clock bool
  | CMU_ClockSelectSet cmu_clock cmu_select
  | RTC_CompareSet nat dbl
  | RTC_IntEnable rtc_int
  | NVIC_ClearPendingIRQ irqn
  | NVIC_EnableIRQ irqn
  | RTC_Init_DEFAULT
  | GPIO_PinModeSet gpio_pin gpio_mode nat
  | GPIO_IntConfig gpio_pin bool bool bool
  | dbprint_INIT usart nat bool bool
  | dbprintln string
  | dbinfo string
  | initADXL_VCC
  | initADXL_SPI
  | initLEDS
  | resetHandlerADXL
  | configADXL_range nat
  | configADXL_ODR nat
  | configADXL_activity nat
  | measureADXL bool
  | led0 bool
  | Delay nat
  | Read_triggered bool
  | readADXL adxl_reg
  | Write_triggered bool
  | systickInterrupts bool
  | enableSPIpinsADXL bool
  | EMU_EnterEM2 bool

text \<open>
  \<open>Read_triggered b\<close> is the read of the volatile flag \<open>triggered\<close> by the test
  \<open>if (triggered)\<close>, with the value read; \<open>Write_triggered False\<close> is the
  assignment \<open>triggered = false\<close>. \<open>RTC_Init_DEFAULT\<close> is \<open>RTC_Init\<close> on a
  structure initialised with \<open>RTC_INIT_DEFAULT\<close>. \<open>RTC_CompareSet\<close> carries the
  double expression of the call; the conversion to the parameter's type
  \<open>uint32_t\<close> happens where the call takes effect.
\<close>

section \<open>The initialisation functions of main.c\<close>

definition initGPIOwakeup :: "event list" where
  "initGPIOwakeup =
     [CMU_ClockEnable cmuClock_GPIO True,
      GPIO_PinModeSet PB0 gpioModeInputPullFilter 1,
      GPIO_PinModeSet PB1 gpioModeInputPullFilter 1,
      GPIO_PinModeSet ADXL_INT1 gpioModeInput 1,
      NVIC_EnableIRQ GPIO_EVEN_IRQn,
      NVIC_EnableIRQ GPIO_ODD_IRQn,
      GPIO_IntConfig PB0 False True True,
      GPIO_IntConfig PB1 False True True,
      GPIO_IntConfig ADXL_INT1 True False True]"

definition initRTCcomp :: "event list" where
  "initRTCcomp =
     [CMU_OscillatorEnable cmuOsc_LFXO True True,
      CMU_ClockEnable cmuClock_HFLE True,
      CMU_ClockSelectSet cmuClock_LFA cmuSelect_LFXO,
      CMU_ClockEnable cmuClock_RTC True,
      RTC_CompareSet 0 COMPARE_RTC,
      RTC_IntEnable RTC_IEN_COMP0,
      NVIC_ClearPendingIRQ RTC_IRQn,
      NVIC_EnableIRQ RTC_IRQn,
      RTC_Init_DEFAULT]"

section \<open>Effect of the peripheral calls on the registers\<close>

text \<open>
  The registers the initialisation functions write. The vendor library is not part of
  the repository; each call has the register effect its documentation gives:
  \<^item> \<open>GPIO_PinModeSet port pin mode out\<close> writes the pin's MODE field and its DOUT bit;
  \<^item> \<open>GPIO_IntConfig port pin rising falling enable\<close> selects the port for external
    interrupt line \<open>pin\<close>, writes the line's rising and falling edge bits, clears its
    pending flag and writes its enable bit;
  \<^item> \<open>NVIC_EnableIRQ\<close> and \<open>NVIC_ClearPendingIRQ\<close> set the enable bit and clear the
    pending bit of one interrupt line of the core;
  \<^item> \<open>RTC_CompareSet 0 v\<close> writes the 24-bit compare register 0;
    \<open>RTC_IntEnable\<close> sets an interrupt enable bit of the counter;
  \<^item> \<open>RTC_Init\<close> with the default settings (enable, compare 0 is top) writes the
    control register and so starts the counter. While the counter is not enabled it is
    held at 0, so it starts from 0.
\<close>

record hw =
  clock_on :: "cmu_clock \<Rightarrow> bool"
  pin_mode :: "gpio_pin \<Rightarrow> gpio_mode"
  pin_dout :: "gpio_pin \<Rightarrow> bool"
  exti_port :: "nat \<Rightarrow> gpio_port"
  exti_rise :: "nat \<Rightarrow> bool"
  exti_fall :: "nat \<Rightarrow> bool"
  exti_flag :: "nat \<Rightarrow> bool"
  exti_ien :: "nat \<Rightarrow> bool"
  nvic_enabled :: "irqn \<Rightarrow> bool"
  nvic_pending :: "irqn \<Rightarrow> bool"
  rtc_comp0 :: "32 word"
  rtc_ien_comp0 :: bool
  rtc_running :: bool
  rtc_comp0top :: bool
  rtc_cnt :: nat
  rtc_if_comp0 :: bool
  undefined_behaviour :: bool

fun hw_apply :: "event \<Rightarrow> hw \<Rightarrow> hw" where
  "hw_apply (CMU_ClockEnable c b) h = h\<lparr>clock_on := (clock_on h)(c := b)\<rparr>"
| "hw_apply (GPIO_PinModeSet p m out) h =
     h\<lparr>pin_mode := (pin_mode h)(p := m), pin_dout := (pin_dout h)(p := (out \<noteq> 0))\<rparr>"
| "hw_apply (GPIO_IntConfig p rising falling enable) h =
     h\<lparr>exti_port := (exti_port h)(snd p := fst p),
       exti_rise := (exti_rise h)(snd p := rising),
       exti_fall := (exti_fall h)(snd p := falling),
       exti_flag := (exti_flag h)(snd p := False),
       exti_ien := (exti_ien h)(snd p := enable)\<rparr>"
| "hw_apply (NVIC_EnableIRQ i) h = h\<lparr>nvic_enabled := (nvic_enabled h)(i := True)\<rparr>"
| "hw_apply (NVIC_ClearPendingIRQ i) h = h\<lparr>nvic_pending := (nvic_pending h)(i := False)\<rparr>"
| "hw_apply (RTC_CompareSet c d) h =
     (case uint32_of_dbl d of
        None \<Rightarrow> h\<lparr>undefined_behaviour := True\<rparr>
      | Some v \<Rightarrow> if c = 0 then h\<lparr>rtc_comp0 := take_bit 24 v\<rparr> else h)"
| "hw_apply (RTC_IntEnable RTC_IEN_COMP0) h = h\<lparr>rtc_ien_comp0 := True\<rparr>"
| "hw_apply RTC_Init_DEFAULT h =
     h\<lparr>rtc_running := True, rtc_comp0top := True,
       rtc_cnt := (if rtc_running h then rtc_cnt h else 0)\<rparr>"
| "hw_apply _ h = h"

definition hw_run :: "event list \<Rightarrow> hw \<Rightarrow> hw" where
  "hw_run es h = fold hw_apply es h"






text \<open>
  What the registers mean for one pin. The glitch filter of an input pin follows the
  vendor's description of the mode values: \<open>gpioModeInput\<close> is "input enabled, filter
  if DOUT is set", \<open>gpioModeInputPull\<close> is "input enabled, DOUT determines pull
  direction", \<open>gpioModeInputPullFilter\<close> is "input enabled with filter, DOUT
  determines pull direction".
\<close>

definition is_input :: "hw \<Rightarrow> gpio_pin \<Rightarrow> bool" where
  "is_input h p = (pin_mode h p \<in> {gpioModeInput, gpioModeInputPull, gpioModeInputPullFilter})"

definition glitch_filter :: "hw \<Rightarrow> gpio_pin \<Rightarrow> bool" where
  "glitch_filter h p =
     (pin_mode h p = gpioModeInputPullFilter \<or> (pin_mode h p = gpioModeInput \<and> pin_dout h p))"

definition armed_rising :: "hw \<Rightarrow> gpio_pin \<Rightarrow> bool" where
  "armed_rising h p = (exti_port h (snd p) = fst p \<and> exti_ien h (snd p) \<and> exti_rise h (snd p))"

definition armed_falling :: "hw \<Rightarrow> gpio_pin \<Rightarrow> bool" where
  "armed_falling h p = (exti_port h (snd p) = fst p \<and> exti_ien h (snd p) \<and> exti_fall h (snd p))"

section \<open>The program as a machine\<close>

text \<open>
  A program counter for each statement of \<open>main\<close>, named by its line in main.c.
  \<open>L134_spin\<close> is the \<open>while (1);\<close> of line 134. The statements under
  \<open>#ifdef DEBUGGING\<close> (lines 143, 187, 205) are part of the program only when the
  macro is defined.
\<close>

datatype pc =
    L131 | L134 | L134_spin | L137 | L140 | L143 | L148 | L151 | L154 | L157
  | L165 | L168 | L176 | L184 | L187
  | L192 | L193 | L194 | L198 | L200 | L201 | L205 | L208 | L209 | L211 | L213 | L214

text \<open>
  What the build and the chip fix: whether \<open>DEBUGGING\<close> is defined, the core clock
  frequency that \<open>CMU_ClockFreqGet\<close> returns, and the value \<open>SysTick_Config\<close>
  returns (non-zero on failure).
\<close>

record env =
  DEBUGGING :: bool
  core_clock :: nat
  SysTick_Config_result :: nat

record mstate =
  pc :: pc
  triggered :: bool
  asleep :: bool
  trace :: "event list"

definition emit :: "event list \<Rightarrow> pc \<Rightarrow> mstate \<Rightarrow> mstate" where
  "emit es p s = s\<lparr>pc := p, trace := trace s @ es\<rparr>"

definition ifdef :: "env \<Rightarrow> pc \<Rightarrow> pc \<Rightarrow> pc" where
  "ifdef e p q = (if DEBUGGING e then p else q)"

text \<open>
  One statement of \<open>main\<close>. \<open>EMU_EnterEM2\<close> halts the processor: after it the
  machine is asleep, and a step of \<open>main\<close> does nothing until an interrupt wakes it.
\<close>

definition main_step :: "env \<Rightarrow> mstate \<Rightarrow> mstate" where
  "main_step e s =
     (if asleep s then s
      else case pc s of
        L131 \<Rightarrow> emit [CHIP_Init] L134 s
      | L134 \<Rightarrow> emit [CMU_ClockFreqGet cmuClock_CORE, SysTick_Config (core_clock e div 1000)]
                  (if SysTick_Config_result e \<noteq> 0 then L134_spin else L137) s
      | L134_spin \<Rightarrow> s
      | L137 \<Rightarrow> emit initRTCcomp L140 s
      | L140 \<Rightarrow> emit initGPIOwakeup (ifdef e L143 L148) s
      | L143 \<Rightarrow> emit [dbprint_INIT USART1 4 True False] L148 s
      | L148 \<Rightarrow> emit [initADXL_VCC] L151 s
      | L151 \<Rightarrow> emit [initADXL_SPI] L154 s
      | L154 \<Rightarrow> emit [initLEDS] L157 s
      | L157 \<Rightarrow> emit [resetHandlerADXL] L165 s
      | L165 \<Rightarrow> emit [configADXL_range 1] L168 s
      | L168 \<Rightarrow> emit [configADXL_ODR 0] L176 s
      | L176 \<Rightarrow> emit [configADXL_activity 3] L184 s
      | L184 \<Rightarrow> emit [measureADXL True] (ifdef e L187 L192) s
      | L187 \<Rightarrow> emit [dbprintln []] L192 s
      | L192 \<Rightarrow> emit [led0 True] L193 s
      | L193 \<Rightarrow> emit [Delay 1000] L194 s
      | L194 \<Rightarrow> emit [led0 False] L198 s
      | L198 \<Rightarrow> emit [Read_triggered (triggered s)]
                  (if triggered s then L200 else ifdef e L205 L208) s
      | L200 \<Rightarrow> emit [readADXL ADXL_REG_STATUS] L201 s
      | L201 \<Rightarrow> (emit [Write_triggered False] (ifdef e L205 L208) s)\<lparr>triggered := False\<rparr>
      | L205 \<Rightarrow> emit [dbinfo (''Disabling systick & going to sleep...'' @ [CHR 0x0D, CHR 0x0A])]
                  L208 s
      | L208 \<Rightarrow> emit [systickInterrupts False] L209 s
      | L209 \<Rightarrow> emit [enableSPIpinsADXL False] L211 s
      | L211 \<Rightarrow> (emit [EMU_EnterEM2 False] L213 s)\<lparr>asleep := True\<rparr>
      | L213 \<Rightarrow> emit [enableSPIpinsADXL True] L214 s
      | L214 \<Rightarrow> emit [systickInterrupts True] L192 s)"

text \<open>
  Modelled from the spec: the interrupt handlers (handlers.c) are not among the
  sources. By the spec a handler sets the Event Flag and returns immediately; an
  interrupt also ends the halt of \<open>EMU_EnterEM2\<close>.
\<close>

definition irq_handler :: "mstate \<Rightarrow> mstate" where
  "irq_handler s = s\<lparr>triggered := True, asleep := False\<rparr>"

text \<open>
  An execution is an interleaving: at each point either \<open>main\<close> executes its next
  statement or an interrupt is served.
\<close>

datatype sched_step = Main | Irq

fun step :: "env \<Rightarrow> sched_step \<Rightarrow> mstate \<Rightarrow> mstate" where
  "step e Main s = main_step e s"
| "step e Irq s = irq_handler s"

fun run :: "env \<Rightarrow> sched_step list \<Rightarrow> mstate \<Rightarrow> mstate" where
  "run e [] s = s"
| "run e (x # xs) s = run e xs (step e x s)"

text \<open>The state at reset; the initial value of the flag is that of its definition in
  handlers.c, a parameter here.\<close>

definition start :: "bool \<Rightarrow> mstate" where
  "start t0 = \<lparr>pc = L131, triggered = t0, asleep = False, trace = []\<rparr>"

section \<open>Observations on traces\<close>

text \<open>The calls that access the sensor over its bus.\<close>

fun sensor_op :: "event \<Rightarrow> bool" where
  "sensor_op resetHandlerADXL = True"
| "sensor_op (configADXL_range _) = True"
| "sensor_op (configADXL_ODR _) = True"
| "sensor_op (configADXL_activity _) = True"
| "sensor_op (measureADXL _) = True"
| "sensor_op (readADXL _) = True"
| "sensor_op _ = False"

text \<open>The calls of the diagnostic output.\<close>

fun debug_op :: "event \<Rightarrow> bool" where
  "debug_op (dbprint_INIT _ _ _ _) = True"
| "debug_op (dbprintln _) = True"
| "debug_op (dbinfo _) = True"
| "debug_op _ = False"

definition strip_debug :: "event list \<Rightarrow> event list" where
  "strip_debug t = filter (\<lambda>x. \<not> debug_op x) t"

text \<open>
  Whether the bus pins are enabled after a sequence of events, given whether they were
  before it. \<open>initADXL_SPI\<close> (accel.c, not among the sources) sets the bus up, by its
  comment in main.c; \<open>enableSPIpinsADXL\<close> switches the pins.
\<close>

fun spi_pins :: "bool \<Rightarrow> event list \<Rightarrow> bool" where
  "spi_pins b [] = b"
| "spi_pins b (initADXL_SPI # es) = spi_pins True es"
| "spi_pins b (enableSPIpinsADXL x # es) = spi_pins x es"
| "spi_pins b (_ # es) = spi_pins b es"


definition comparable :: "'a list \<Rightarrow> 'a list \<Rightarrow> bool" where
  "comparable xs ys = (prefix xs ys \<or> prefix ys xs)"

text \<open>The sensor operations of the boot sequence, in the order of main.c.\<close>

definition boot_sensor_ops :: "event list" where
  "boot_sensor_ops =
     [resetHandlerADXL, configADXL_range 1, configADXL_ODR 0, configADXL_activity 3,
      measureADXL True]"

text \<open>The events before the first statement of the main loop, \<open>led0(true)\<close>.\<close>

definition before_loop :: "event list \<Rightarrow> event list" where
  "before_loop t = takeWhile (\<lambda>x. x \<noteq> led0 True) t"

text \<open>The trace of a boot in which \<open>SysTick_Config\<close> fails.\<close>

definition hang_trace :: "env \<Rightarrow> event list" where
  "hang_trace e =
     [CHIP_Init, CMU_ClockFreqGet cmuClock_CORE, SysTick_Config (core_clock e div 1000)]"

section \<open>Invariants of the machine\<close>





definition sleep_inv :: "mstate \<Rightarrow> bool" where
  "sleep_inv s =
     ((\<forall>pre x post. trace s = pre @ EMU_EnterEM2 x # post \<longrightarrow>
         suffix [systickInterrupts False, enableSPIpinsADXL False] pre \<and>
         (prefix [enableSPIpinsADXL True, systickInterrupts True, led0 True] post
          \<or> (post = [] \<and> pc s = L213)
          \<or> (post = [enableSPIpinsADXL True] \<and> pc s = L214)
          \<or> (post = [enableSPIpinsADXL True, systickInterrupts True] \<and> pc s = L192)))
      \<and> (pc s = L211 \<longrightarrow> suffix [systickInterrupts False, enableSPIpinsADXL False] (trace s))
      \<and> (pc s = L209 \<longrightarrow> suffix [systickInterrupts False] (trace s)))"

text \<open>The statements at which the bus pins are enabled.\<close>

fun pins_on_at :: "pc \<Rightarrow> bool" where
  "pins_on_at L131 = False" | "pins_on_at L134 = False" | "pins_on_at L134_spin = False"
| "pins_on_at L137 = False" | "pins_on_at L140 = False" | "pins_on_at L143 = False"
| "pins_on_at L148 = False" | "pins_on_at L151 = False"
| "pins_on_at L211 = False" | "pins_on_at L213 = False"
| "pins_on_at _ = True"

definition spi_inv :: "mstate \<Rightarrow> bool" where
  "spi_inv s =
     ((\<forall>pre r post. trace s = pre @ readADXL r # post \<longrightarrow> spi_pins False pre)
      \<and> (pins_on_at (pc s) \<longrightarrow> spi_pins False (trace s)))"

text \<open>The sensor operations issued when \<open>main\<close> stands at a statement of the boot
  sequence.\<close>

fun sensor_done :: "pc \<Rightarrow> event list option" where
  "sensor_done L165 = Some (take 1 boot_sensor_ops)"
| "sensor_done L168 = Some (take 2 boot_sensor_ops)"
| "sensor_done L176 = Some (take 3 boot_sensor_ops)"
| "sensor_done L184 = Some (take 4 boot_sensor_ops)"
| "sensor_done L187 = Some boot_sensor_ops"
| "sensor_done L192 = Some boot_sensor_ops"
| "sensor_done L131 = Some []" | "sensor_done L134 = Some []" | "sensor_done L134_spin = Some []"
| "sensor_done L137 = Some []" | "sensor_done L140 = Some []" | "sensor_done L143 = Some []"
| "sensor_done L148 = Some []" | "sensor_done L151 = Some []" | "sensor_done L154 = Some []"
| "sensor_done L157 = Some []"
| "sensor_done _ = None"

definition boot_inv :: "mstate \<Rightarrow> bool" where
  "boot_inv s =
     (if led0 True \<in> set (trace s)
      then filter sensor_op (before_loop (trace s)) = boot_sensor_ops
      else sensor_done (pc s) = Some (filter sensor_op (trace s)))"

definition hang_inv :: "env \<Rightarrow> nat \<Rightarrow> mstate \<Rightarrow> bool" where
  "hang_inv e n s =
     (\<not> asleep s \<and>
      ((pc s = L131 \<and> n = 0 \<and> trace s = [])
       \<or> (pc s = L134 \<and> n = 1 \<and> trace s = [CHIP_Init])
       \<or> (pc s = L134_spin \<and> 2 \<le> n \<and> trace s = hang_trace e)))"

text \<open>From the test of the flag to the halt, as long as no interrupt is served.\<close>

definition quiet_inv :: "mstate \<Rightarrow> bool" where
  "quiet_inv s =
     (pc s \<in> {L198, L200, L201, L205, L208, L209, L211, L213} \<and>
      (pc s \<in> {L200, L201} \<longrightarrow> triggered s) \<and>
      (pc s \<in> {L205, L208, L209, L211, L213} \<longrightarrow> \<not> triggered s) \<and>
      (asleep s = (pc s = L213)))"

text \<open>
  The build with the diagnostic output and the build without it, side by side: the
  first may stand at a diagnostic statement where the second stands at the statement
  after it.
\<close>

fun skip_debug :: "pc \<Rightarrow> pc" where
  "skip_debug L143 = L148"
| "skip_debug L187 = L192"
| "skip_debug L205 = L208"
| "skip_debug p = p"

definition sim :: "mstate \<Rightarrow> mstate \<Rightarrow> bool" where
  "sim sd sn =
     (triggered sd = triggered sn \<and> asleep sd = asleep sn \<and>
      strip_debug (trace sd) = trace sn \<and> skip_debug (pc sd) = pc sn)"

section \<open>Concrete executions\<close>

definition E0 :: env where
  "E0 = \<lparr>DEBUGGING = True, core_clock = 14000000, SysTick_Config_result = 0\<rparr>"

definition E1 :: env where
  "E1 = \<lparr>DEBUGGING = True, core_clock = 14000000, SysTick_Config_result = 1\<rparr>"

text \<open>Fourteen statements take \<open>main\<close> of the debugging build from reset to the loop.\<close>

definition boot_schedule :: "sched_step list" where
  "boot_schedule = [Main, Main, Main, Main, Main, Main, Main, Main, Main, Main, Main, Main, Main, Main]"


text \<open>Boot, then the loop up to and including the status read.\<close>

definition read_schedule :: "sched_step list" where
  "read_schedule = boot_schedule @ [Main, Main, Main, Main, Main]"

text \<open>Boot, one pass to the halt, an interrupt, and the first statement of the next pass.\<close>

definition wake_schedule :: "sched_step list" where
  "wake_schedule =
     boot_schedule @ [Main, Main, Main, Main, Main, Main, Main, Main, Irq, Main, Main, Main]"

text \<open>Boot, the test of the flag, then an interrupt before the halt.\<close>

definition racy_schedule :: "sched_step list" where
  "racy_schedule = boot_schedule @ [Main, Main, Main, Main, Irq, Main, Main, Main, Main]"

definition at_test :: mstate where
  "at_test = \<lparr>pc = L198, triggered = True, asleep = False, trace = []\<rparr>"

section \<open>Executions and invariants\<close>

lemma run_append: "run e (xs @ ys) s = run e ys (run e xs s)"
  by (induction xs arbitrary: s) simp_all

lemma run_snoc: "run e (xs @ [x]) s = step e x (run e xs s)"
  by (simp add: run_append)

text \<open>A property of the reset state that every statement and every interrupt keep
  holds after every interleaving.\<close>

lemma run_invariant:
  assumes "P s" and "\<And>s. P s \<Longrightarrow> P (main_step e s)" and "\<And>s. P s \<Longrightarrow> P (irq_handler s)"
  shows "P (run e sched s)"
  using assms(1)
proof (induction sched arbitrary: s)
  case Nil
  then show ?case by simp
next
  case (Cons x xs)
  then show ?case using assms(2,3) by (cases x) simp_all
qed

lemma snoc_eq_split:
  "(xs @ [x] = pre @ a # post) =
     ((post = [] \<and> x = a \<and> pre = xs) \<or> (\<exists>post'. post = post' @ [x] \<and> xs = pre @ a # post'))"
  by (cases post rule: rev_cases) auto

lemma append_eq_split:
  "a \<notin> set ys \<Longrightarrow>
     (xs @ ys = pre @ a # post) = (\<exists>post'. post = post' @ ys \<and> xs = pre @ a # post')"
  by (auto simp: append_eq_append_conv2 append_eq_Cons_conv Cons_eq_append_conv)

lemma takeWhile_neq_append:
  "takeWhile (\<lambda>x. x \<noteq> a) (xs @ ys) =
     (if a \<in> set xs then takeWhile (\<lambda>x. x \<noteq> a) xs else xs @ takeWhile (\<lambda>x. x \<noteq> a) ys)"
  by (induction xs) auto

lemma spi_pins_append: "spi_pins b (xs @ ys) = spi_pins (spi_pins b xs) ys"
  by (induction b xs rule: spi_pins.induct) simp_all

lemmas exec_simps = start_def main_step_def emit_def ifdef_def irq_handler_def
  initRTCcomp_def initGPIOwakeup_def

subsection \<open>From the liveness indication to the halt\<close>












subsection \<open>Around the halt\<close>

lemma sleep_inv_start: "sleep_inv (start t0)"
  by (simp add: sleep_inv_def start_def)

lemma sleep_inv_irq: "sleep_inv s \<Longrightarrow> sleep_inv (irq_handler s)"
  by (simp add: sleep_inv_def irq_handler_def)

lemma sleep_invD1:
  "trace s = pre @ EMU_EnterEM2 x # post \<Longrightarrow> sleep_inv s \<Longrightarrow>
     suffix [systickInterrupts False, enableSPIpinsADXL False] pre \<and>
     (prefix [enableSPIpinsADXL True, systickInterrupts True, led0 True] post
      \<or> (post = [] \<and> pc s = L213)
      \<or> (post = [enableSPIpinsADXL True] \<and> pc s = L214)
      \<or> (post = [enableSPIpinsADXL True, systickInterrupts True] \<and> pc s = L192))"
  unfolding sleep_inv_def by blast

lemma sleep_invD2:
  "sleep_inv s \<Longrightarrow>
     (pc s = L211 \<longrightarrow> suffix [systickInterrupts False, enableSPIpinsADXL False] (trace s))
     \<and> (pc s = L209 \<longrightarrow> suffix [systickInterrupts False] (trace s))"
  by (simp add: sleep_inv_def)

lemma sleep_inv_main1:
  assumes "sleep_inv s" and "trace (main_step e s) = pre @ EMU_EnterEM2 x # post"
  shows "suffix [systickInterrupts False, enableSPIpinsADXL False] pre \<and>
         (prefix [enableSPIpinsADXL True, systickInterrupts True, led0 True] post
          \<or> (post = [] \<and> pc (main_step e s) = L213)
          \<or> (post = [enableSPIpinsADXL True] \<and> pc (main_step e s) = L214)
          \<or> (post = [enableSPIpinsADXL True, systickInterrupts True] \<and> pc (main_step e s) = L192))"
  using assms(2) sleep_invD2[OF assms(1)] assms(1)
  by (cases "pc s")
     (auto simp: main_step_def emit_def ifdef_def snoc_eq_split append_eq_split initRTCcomp_def
        initGPIOwakeup_def split: if_splits dest!: sleep_invD1)

lemma sleep_inv_main2:
  assumes "sleep_inv s"
  shows "(pc (main_step e s) = L211 \<longrightarrow>
            suffix [systickInterrupts False, enableSPIpinsADXL False] (trace (main_step e s)))
      \<and> (pc (main_step e s) = L209 \<longrightarrow> suffix [systickInterrupts False] (trace (main_step e s)))"
  using sleep_invD2[OF assms(1)]
  by (cases "pc s")
     (auto simp: main_step_def emit_def ifdef_def suffix_def split: if_splits)

lemma sleep_inv_main: "sleep_inv s \<Longrightarrow> sleep_inv (main_step e s)"
  using sleep_inv_main1[of s e] sleep_inv_main2[of s e] unfolding sleep_inv_def[of "main_step e s"]
  by blast

lemma sleep_inv_run: "sleep_inv (run e sched (start t0))"
  by (rule run_invariant[where P = sleep_inv, OF sleep_inv_start sleep_inv_main sleep_inv_irq])

subsection \<open>The bus pins\<close>

lemma spi_invD1: "trace s = pre @ readADXL r # post \<Longrightarrow> spi_inv s \<Longrightarrow> spi_pins False pre"
  unfolding spi_inv_def by blast

lemma spi_invD2: "spi_inv s \<Longrightarrow> pins_on_at (pc s) \<longrightarrow> spi_pins False (trace s)"
  unfolding spi_inv_def by blast

lemma spi_inv_start: "spi_inv (start t0)"
  by (simp add: spi_inv_def start_def)

lemma spi_inv_irq: "spi_inv s \<Longrightarrow> spi_inv (irq_handler s)"
  by (simp add: spi_inv_def irq_handler_def)

lemma spi_inv_main1:
  assumes "spi_inv s" and "trace (main_step e s) = pre @ readADXL r # post"
  shows "spi_pins False pre"
  using assms(2) spi_invD2[OF assms(1)] assms(1)
  by (cases "pc s")
     (auto simp: main_step_def emit_def ifdef_def snoc_eq_split append_eq_split initRTCcomp_def
        initGPIOwakeup_def split: if_splits dest!: spi_invD1)

lemma spi_inv_main2:
  assumes "spi_inv s"
  shows "pins_on_at (pc (main_step e s)) \<longrightarrow> spi_pins False (trace (main_step e s))"
  using spi_invD2[OF assms(1)]
  by (cases "pc s")
     (auto simp: main_step_def emit_def ifdef_def spi_pins_append initRTCcomp_def
        initGPIOwakeup_def split: if_splits)

lemma spi_inv_main: "spi_inv s \<Longrightarrow> spi_inv (main_step e s)"
  using spi_inv_main1[of s e] spi_inv_main2[of s e] unfolding spi_inv_def[of "main_step e s"]
  by blast

lemma spi_inv_run: "spi_inv (run e sched (start t0))"
  by (rule run_invariant[where P = spi_inv, OF spi_inv_start spi_inv_main spi_inv_irq])

subsection \<open>The boot sequence\<close>

lemma boot_inv_start: "boot_inv (start t0)"
  by (simp add: boot_inv_def start_def)

lemma boot_inv_irq: "boot_inv s \<Longrightarrow> boot_inv (irq_handler s)"
  by (simp add: boot_inv_def irq_handler_def)

lemma boot_inv_main: "boot_inv s \<Longrightarrow> boot_inv (main_step e s)"
  unfolding boot_inv_def before_loop_def
  by (cases "pc s")
     (auto simp: main_step_def emit_def ifdef_def initRTCcomp_def initGPIOwakeup_def
        boot_sensor_ops_def takeWhile_neq_append split: if_splits)

lemma boot_inv_run: "boot_inv (run e sched (start t0))"
  by (rule run_invariant[where P = boot_inv, OF boot_inv_start boot_inv_main boot_inv_irq])

lemma hang_inv_run:
  "SysTick_Config_result e \<noteq> 0 \<Longrightarrow> hang_inv e (count_list sched Main) (run e sched (start t0))"
proof (induction sched rule: rev_induct)
  case Nil
  then show ?case by (simp add: hang_inv_def start_def)
next
  case (snoc x xs)
  then have "hang_inv e (count_list xs Main) (run e xs (start t0))" by simp
  with snoc.prems show ?case
    by (cases x)
       (auto simp: run_snoc hang_inv_def main_step_def emit_def irq_handler_def hang_trace_def)
qed

subsection \<open>Between the test and the halt, without interrupts\<close>

lemma quiet_inv_main: "quiet_inv s \<Longrightarrow> quiet_inv (main_step e s)"
  unfolding quiet_inv_def
  by (cases "pc s") (auto simp: main_step_def emit_def ifdef_def)

lemma quiet_inv_run: "quiet_inv s \<Longrightarrow> Irq \<notin> set sched \<Longrightarrow> quiet_inv (run e sched s)"
proof (induction sched arbitrary: s)
  case Nil
  then show ?case by simp
next
  case (Cons x xs)
  then show ?case by (cases x) (simp_all add: quiet_inv_main)
qed

subsection \<open>The two builds\<close>

lemma sim_start: "sim (start t0) (start t0)"
  by (simp add: sim_def start_def strip_debug_def)

lemma sim_irq: "sim sd sn \<Longrightarrow> sim (irq_handler sd) (irq_handler sn)"
  by (simp add: sim_def irq_handler_def)

lemma sim_asleep: "sim sd sn \<Longrightarrow> asleep sd \<Longrightarrow> main_step ed sd = sd \<and> main_step en sn = sn"
  by (simp add: sim_def main_step_def)

lemma sim_main_debug:
  "sim sd sn \<Longrightarrow> \<not> asleep sd \<Longrightarrow> pc sd \<in> {L143, L187, L205} \<Longrightarrow>
     sim (main_step ed sd) sn \<and> pc (main_step ed sd) \<notin> {L143, L187, L205}
     \<and> \<not> asleep (main_step ed sd)"
  by (auto simp: sim_def main_step_def emit_def strip_debug_def)

lemma sim_main_both:
  "sim sd sn \<Longrightarrow> \<not> asleep sd \<Longrightarrow> pc sd \<notin> {L143, L187, L205} \<Longrightarrow>
     sim (main_step (e\<lparr>DEBUGGING := True\<rparr>) sd) (main_step (e\<lparr>DEBUGGING := False\<rparr>) sn)"
  by (cases "pc sd")
     (auto simp: sim_def main_step_def emit_def ifdef_def strip_debug_def initRTCcomp_def
        initGPIOwakeup_def)

text \<open>Every execution of the build with the diagnostic output is matched by one of the
  build without it: the diagnostic statements are dropped from the schedule.\<close>

lemma debug_refines:
  "\<exists>sched'. count_list sched' Irq = count_list sched Irq \<and>
     sim (run (e\<lparr>DEBUGGING := True\<rparr>) sched (start t0))
         (run (e\<lparr>DEBUGGING := False\<rparr>) sched' (start t0))"
proof (induction sched rule: rev_induct)
  case Nil
  have "count_list [] Irq = count_list [] Irq \<and>
     sim (run (e\<lparr>DEBUGGING := True\<rparr>) [] (start t0)) (run (e\<lparr>DEBUGGING := False\<rparr>) [] (start t0))"
    by (simp add: sim_start)
  then show ?case by blast
next
  case (snoc x xs)
  then obtain ys where ys: "count_list ys Irq = count_list xs Irq"
    "sim (run (e\<lparr>DEBUGGING := True\<rparr>) xs (start t0)) (run (e\<lparr>DEBUGGING := False\<rparr>) ys (start t0))"
    by blast
  let ?sd = "run (e\<lparr>DEBUGGING := True\<rparr>) xs (start t0)"
  show ?case
  proof (cases x)
    case Irq
    with ys have "count_list (ys @ [Irq]) Irq = count_list (xs @ [x]) Irq \<and>
      sim (run (e\<lparr>DEBUGGING := True\<rparr>) (xs @ [x]) (start t0))
          (run (e\<lparr>DEBUGGING := False\<rparr>) (ys @ [Irq]) (start t0))"
      by (simp add: run_snoc sim_irq)
    then show ?thesis by blast
  next
    case Main
    consider (sleep) "asleep ?sd" | (dbg) "\<not> asleep ?sd" "pc ?sd \<in> {L143, L187, L205}"
      | (both) "\<not> asleep ?sd" "pc ?sd \<notin> {L143, L187, L205}" by blast
    then show ?thesis
    proof cases
      case sleep
      with ys Main sim_asleep[OF ys(2) sleep]
      have "count_list ys Irq = count_list (xs @ [x]) Irq \<and>
        sim (run (e\<lparr>DEBUGGING := True\<rparr>) (xs @ [x]) (start t0))
            (run (e\<lparr>DEBUGGING := False\<rparr>) ys (start t0))"
        by (simp add: run_snoc)
      then show ?thesis by blast
    next
      case dbg
      with ys Main sim_main_debug[OF ys(2) dbg]
      have "count_list ys Irq = count_list (xs @ [x]) Irq \<and>
        sim (run (e\<lparr>DEBUGGING := True\<rparr>) (xs @ [x]) (start t0))
            (run (e\<lparr>DEBUGGING := False\<rparr>) ys (start t0))"
        by (simp add: run_snoc)
      then show ?thesis by blast
    next
      case both
      with ys Main sim_main_both[OF ys(2) both]
      have "count_list (ys @ [Main]) Irq = count_list (xs @ [x]) Irq \<and>
        sim (run (e\<lparr>DEBUGGING := True\<rparr>) (xs @ [x]) (start t0))
            (run (e\<lparr>DEBUGGING := False\<rparr>) (ys @ [Main]) (start t0))"
        by (simp add: run_snoc)
      then show ?thesis by blast
    qed
  qed
qed

text \<open>Conversely, every execution of the build without the diagnostic output is matched
  by one of the build with it: each diagnostic statement is run as soon as it is reached.\<close>

lemma debug_abstracts:
  "\<exists>sched'. count_list sched' Irq = count_list sched Irq \<and>
     sim (run (e\<lparr>DEBUGGING := True\<rparr>) sched' (start t0))
         (run (e\<lparr>DEBUGGING := False\<rparr>) sched (start t0))"
proof (induction sched rule: rev_induct)
  case Nil
  have "count_list [] Irq = count_list [] Irq \<and>
     sim (run (e\<lparr>DEBUGGING := True\<rparr>) [] (start t0)) (run (e\<lparr>DEBUGGING := False\<rparr>) [] (start t0))"
    by (simp add: sim_start)
  then show ?case by blast
next
  case (snoc x xs)
  then obtain ys where ys: "count_list ys Irq = count_list xs Irq"
    "sim (run (e\<lparr>DEBUGGING := True\<rparr>) ys (start t0)) (run (e\<lparr>DEBUGGING := False\<rparr>) xs (start t0))"
    by blast
  let ?sd = "run (e\<lparr>DEBUGGING := True\<rparr>) ys (start t0)"
  let ?sn = "run (e\<lparr>DEBUGGING := False\<rparr>) xs (start t0)"
  show ?case
  proof (cases x)
    case Irq
    with ys have "count_list (ys @ [Irq]) Irq = count_list (xs @ [x]) Irq \<and>
      sim (run (e\<lparr>DEBUGGING := True\<rparr>) (ys @ [Irq]) (start t0))
          (run (e\<lparr>DEBUGGING := False\<rparr>) (xs @ [x]) (start t0))"
      by (simp add: run_snoc sim_irq)
    then show ?thesis by blast
  next
    case Main
    consider (sleep) "asleep ?sd" | (dbg) "\<not> asleep ?sd" "pc ?sd \<in> {L143, L187, L205}"
      | (both) "\<not> asleep ?sd" "pc ?sd \<notin> {L143, L187, L205}" by blast
    then show ?thesis
    proof cases
      case sleep
      with ys Main sim_asleep[OF ys(2) sleep]
      have "count_list ys Irq = count_list (xs @ [x]) Irq \<and>
        sim (run (e\<lparr>DEBUGGING := True\<rparr>) ys (start t0))
            (run (e\<lparr>DEBUGGING := False\<rparr>) (xs @ [x]) (start t0))"
        by (simp add: run_snoc)
      then show ?thesis by blast
    next
      case dbg
      from sim_main_debug[OF ys(2) dbg, of "e\<lparr>DEBUGGING := True\<rparr>"]
      have 1: "sim (main_step (e\<lparr>DEBUGGING := True\<rparr>) ?sd) ?sn"
        and 2: "pc (main_step (e\<lparr>DEBUGGING := True\<rparr>) ?sd) \<notin> {L143, L187, L205}"
        and 3: "\<not> asleep (main_step (e\<lparr>DEBUGGING := True\<rparr>) ?sd)" by blast+
      from sim_main_both[OF 1 3 2, of e] ys Main
      have "count_list (ys @ [Main, Main]) Irq = count_list (xs @ [x]) Irq \<and>
        sim (run (e\<lparr>DEBUGGING := True\<rparr>) (ys @ [Main, Main]) (start t0))
            (run (e\<lparr>DEBUGGING := False\<rparr>) (xs @ [x]) (start t0))"
        by (simp add: run_snoc run_append)
      then show ?thesis by blast
    next
      case both
      with ys Main sim_main_both[OF ys(2) both]
      have "count_list (ys @ [Main]) Irq = count_list (xs @ [x]) Irq \<and>
        sim (run (e\<lparr>DEBUGGING := True\<rparr>) (ys @ [Main]) (start t0))
            (run (e\<lparr>DEBUGGING := False\<rparr>) (xs @ [x]) (start t0))"
        by (simp add: run_snoc)
      then show ?thesis by blast
    qed
  qed
qed


lemmas hw_simps = hw_run_def initGPIOwakeup_def initRTCcomp_def PB0_def PB1_def ADXL_INT1_def
  is_input_def glitch_filter_def armed_rising_def armed_falling_def

lemma COMPARE_RTC_value: "COMPARE_RTC = Dbl 1966080 0"
  by (simp add: COMPARE_RTC_def dbl_mul_def DELAY_RTC_def dbl_of_int_def LFXOFREQ_def
      round_dbl_def Let_def width.simps)

lemma uint32_of_COMPARE_RTC: "uint32_of_dbl COMPARE_RTC = Some 1966080"
  by (simp add: COMPARE_RTC_value uint32_of_dbl_def dbl_num_def dbl_den_def)

subsection \<open>The test and the clearing of the flag, as single statements\<close>



subsection \<open>The counter after its initialisation\<close>







section \<open>The claims\<close>



text \<open>
  C2. Every entry into deep sleep is directly preceded by the disabling of the liveness
  tick and then of the bus pins, and what follows it is, as far as the execution has
  got, the enabling of the bus pins, then of the liveness tick, then the first statement
  of the loop.
\<close>

theorem sleep_and_wake_order:
  "trace (run e sched (start t0)) = pre @ EMU_EnterEM2 x # post \<Longrightarrow>
     suffix [systickInterrupts False, enableSPIpinsADXL False] pre \<and>
     comparable post [enableSPIpinsADXL True, systickInterrupts True, led0 True]"
  using sleep_invD1[OF _ sleep_inv_run, of e sched t0 pre x post]
  by (auto simp: comparable_def)

theorem sleep_and_wake_order_witness:
  "trace (run E0 wake_schedule (start False)) =
     take 38 (trace (run E0 wake_schedule (start False))) @ EMU_EnterEM2 False
       # [enableSPIpinsADXL True, systickInterrupts True, led0 True]
   \<and> suffix [systickInterrupts False, enableSPIpinsADXL False]
        (take 38 (trace (run E0 wake_schedule (start False))))
   \<and> comparable [enableSPIpinsADXL True, systickInterrupts True, led0 True]
        [enableSPIpinsADXL True, systickInterrupts True, led0 True]"
proof -
  have h: "trace (run E0 wake_schedule (start False)) =
     take 38 (trace (run E0 wake_schedule (start False))) @ EMU_EnterEM2 False
       # [enableSPIpinsADXL True, systickInterrupts True, led0 True]"
    by (simp add: exec_simps E0_def wake_schedule_def boot_schedule_def)
  from h sleep_and_wake_order[OF h] show ?thesis by blast
qed

text \<open>
  C3, as stated: deep sleep is never entered while the Event Flag is set. It fails: an
  interrupt served after the test of the flag and before the halt sets the flag, and
  \<open>main\<close> halts with the flag set. Here the interrupt comes right after the test of
  the first pass.
\<close>

theorem sleep_with_flag_set_counterexample:
  "\<not> (asleep (run E0 racy_schedule (start False)) \<longrightarrow>
       \<not> triggered (run E0 racy_schedule (start False)))"
  by (simp add: exec_simps E0_def racy_schedule_def boot_schedule_def)

text \<open>
  C3, amended: from the test of the Event Flag on, as long as no interrupt is served,
  \<open>main\<close> reaches the halt (within seven statements), and whenever it is halted the
  flag is clear: a flag that was set at the test has been acknowledged and cleared.
\<close>

theorem sleep_with_flag_clear_without_interrupt:
  assumes "pc s = L198" and "\<not> asleep s" and "Irq \<notin> set sched"
  shows "asleep (run e [Main, Main, Main, Main, Main, Main, Main] s) \<and>
         (asleep (run e sched s) \<longrightarrow> \<not> triggered (run e sched s))"
proof (intro conjI)
  show "asleep (run e [Main, Main, Main, Main, Main, Main, Main] s)"
    using assms(1,2)
    by (cases "triggered s"; cases "DEBUGGING e") (simp_all add: main_step_def emit_def ifdef_def)
  have "quiet_inv s" using assms(1,2) by (simp add: quiet_inv_def)
  then have "quiet_inv (run e sched s)" using assms(3) by (rule quiet_inv_run)
  then show "asleep (run e sched s) \<longrightarrow> \<not> triggered (run e sched s)"
    by (auto simp: quiet_inv_def)
qed

theorem sleep_with_flag_clear_without_interrupt_witness:
  "pc at_test = L198 \<and> \<not> asleep at_test
   \<and> Irq \<notin> set [Main, Main, Main, Main, Main, Main, Main]
   \<and> asleep (run E0 [Main, Main, Main, Main, Main, Main, Main] at_test)
   \<and> \<not> triggered (run E0 [Main, Main, Main, Main, Main, Main, Main] at_test)"
proof -
  have h1: "pc at_test = L198" and h2: "\<not> asleep at_test"
    by (simp_all add: at_test_def)
  have h3: "Irq \<notin> set [Main, Main, Main, Main, Main, Main, Main]" by simp
  from sleep_with_flag_clear_without_interrupt[OF h1 h2 h3, of E0] h1 h2 h3
  show ?thesis by blast
qed

text \<open>
  C4. No register of the sensor is read while the bus pins are disabled: before every
  \<open>readADXL\<close> of an execution the pins have been set up and, if they were disabled
  since, enabled again.
\<close>

theorem bus_read_with_pins_enabled:
  "trace (run e sched (start t0)) = pre @ readADXL r # post \<Longrightarrow> spi_pins False pre"
  by (rule spi_invD1[OF _ spi_inv_run])

theorem bus_read_with_pins_enabled_witness:
  "trace (run E0 read_schedule (start True)) =
     take 35 (trace (run E0 read_schedule (start True))) @ readADXL ADXL_REG_STATUS # []
   \<and> spi_pins False (take 35 (trace (run E0 read_schedule (start True))))"
proof -
  have h: "trace (run E0 read_schedule (start True)) =
     take 35 (trace (run E0 read_schedule (start True))) @ readADXL ADXL_REG_STATUS # []"
    by (simp add: exec_simps E0_def read_schedule_def boot_schedule_def)
  from h bus_read_with_pins_enabled[OF h] show ?thesis by blast
qed



text \<open>
  C6. The compare value is exact: the double product \<open>60.0 * 32768\<close> is the integer
  1966080 with nothing rounded away, its conversion to \<open>uint32_t\<close> is defined and is
  1966080, and that is the value of compare register 0 after \<open>initRTCcomp\<close>.
\<close>

theorem compare_value_exact:
  "dbl_num COMPARE_RTC = 60 * LFXOFREQ \<and> dbl_den COMPARE_RTC = 1
   \<and> uint32_of_dbl COMPARE_RTC = Some 1966080
   \<and> rtc_comp0 (hw_run initRTCcomp h) = 1966080
   \<and> undefined_behaviour (hw_run initRTCcomp h) = undefined_behaviour h"
  by (simp add: hw_simps uint32_of_COMPARE_RTC)
     (simp add: COMPARE_RTC_value dbl_num_def dbl_den_def LFXOFREQ_def)

text \<open>
  C7. Whenever the main loop has begun, the sensor operations issued before its first
  statement are exactly these, in this order: the soft reset, the range, the output data
  rate, the activity threshold, and last the enabling of the measurement.
\<close>

theorem sensor_boot_order:
  "led0 True \<in> set (trace (run e sched (start t0))) \<Longrightarrow>
     filter sensor_op (before_loop (trace (run e sched (start t0)))) =
       [resetHandlerADXL, configADXL_range 1, configADXL_ODR 0, configADXL_activity 3,
        measureADXL True]"
  using boot_inv_run[of e sched t0]
  by (simp add: boot_inv_def boot_sensor_ops_def)

theorem sensor_boot_order_witness:
  "led0 True \<in> set (trace (run E0 (boot_schedule @ [Main]) (start False)))
   \<and> filter sensor_op (before_loop (trace (run E0 (boot_schedule @ [Main]) (start False)))) =
       [resetHandlerADXL, configADXL_range 1, configADXL_ODR 0, configADXL_activity 3,
        measureADXL True]"
proof -
  have h: "led0 True \<in> set (trace (run E0 (boot_schedule @ [Main]) (start False)))"
    by (simp add: exec_simps E0_def boot_schedule_def)
  from h sensor_boot_order[OF h] show ?thesis by blast
qed

text \<open>
  C8. When \<open>SysTick_Config\<close> fails, \<open>main\<close> never gets past line 134: in every
  execution it stands at one of the first two statements or in the busy-wait, its trace
  is an initial part of chip initialisation and SysTick configuration (no other
  initialisation, no diagnostic output, no statement of the loop), and from its second
  statement on it is in the busy-wait for good.
\<close>

theorem systick_failure_hangs:
  "SysTick_Config_result e \<noteq> 0 \<Longrightarrow>
     pc (run e sched (start t0)) \<in> {L131, L134, L134_spin} \<and>
     prefix (trace (run e sched (start t0))) (hang_trace e) \<and>
     (2 \<le> count_list sched Main \<longrightarrow>
        pc (run e sched (start t0)) = L134_spin \<and> trace (run e sched (start t0)) = hang_trace e)"
  using hang_inv_run[of e sched t0]
  by (auto simp: hang_inv_def hang_trace_def)

theorem systick_failure_hangs_witness:
  "SysTick_Config_result E1 \<noteq> 0
   \<and> 2 \<le> count_list [Main, Main, Irq, Main, Main] Main
   \<and> pc (run E1 [Main, Main, Irq, Main, Main] (start False)) = L134_spin
   \<and> trace (run E1 [Main, Main, Irq, Main, Main] (start False)) = hang_trace E1"
proof -
  have h1: "SysTick_Config_result E1 \<noteq> 0" by (simp add: E1_def)
  have h2: "2 \<le> count_list [Main, Main, Irq, Main, Main] Main" by simp
  from systick_failure_hangs[OF h1, of "[Main, Main, Irq, Main, Main]" False] h1 h2
  show ?thesis by blast
qed

text \<open>
  C9. The build without the diagnostic output behaves as the build with it: for every
  execution of either build there is an execution of the other, with the same number of
  interrupts, that issues the same events in the same order once the diagnostic calls
  are left out, and ends with the same Event Flag and in the same power state.
\<close>

theorem debug_output_transparent:
  "(\<exists>sched'. count_list sched' Irq = count_list sched Irq
      \<and> strip_debug (trace (run (e\<lparr>DEBUGGING := True\<rparr>) sched (start t0))) =
          trace (run (e\<lparr>DEBUGGING := False\<rparr>) sched' (start t0))
      \<and> triggered (run (e\<lparr>DEBUGGING := True\<rparr>) sched (start t0)) =
          triggered (run (e\<lparr>DEBUGGING := False\<rparr>) sched' (start t0))
      \<and> asleep (run (e\<lparr>DEBUGGING := True\<rparr>) sched (start t0)) =
          asleep (run (e\<lparr>DEBUGGING := False\<rparr>) sched' (start t0)))
   \<and> (\<exists>sched'. count_list sched' Irq = count_list sched Irq
      \<and> strip_debug (trace (run (e\<lparr>DEBUGGING := True\<rparr>) sched' (start t0))) =
          trace (run (e\<lparr>DEBUGGING := False\<rparr>) sched (start t0))
      \<and> triggered (run (e\<lparr>DEBUGGING := True\<rparr>) sched' (start t0)) =
          triggered (run (e\<lparr>DEBUGGING := False\<rparr>) sched (start t0))
      \<and> asleep (run (e\<lparr>DEBUGGING := True\<rparr>) sched' (start t0)) =
          asleep (run (e\<lparr>DEBUGGING := False\<rparr>) sched (start t0)))"
  using debug_refines[of sched e t0] debug_abstracts[of sched e t0]
  unfolding sim_def by blast



end
